theory Spec2Isabelle
  imports Complex_Main
begin

section \<open>Data model of \<open>AudioIdentityWrapper\<close>\<close>

text \<open>
  The development embeds \<^verbatim>\<open>vima_bench/env/wrappers/audio_identity.py\<close>.
  Body ids are the integers PyBullet hands out; a sound label is a string and the
  Python value \<^verbatim>\<open>None\<close> (a silent object) is \<open>None\<close> of the option type.
  Python floats (clock readings, the cooldown, rewards, embedding entries) are modelled
  as reals: rounding, infinities and NaN are outside the model.
\<close>

type_synonym body = int
type_synonym label = string

text \<open>
  One entry of \<^verbatim>\<open>self.audio_events\<close>: the dict with the keys
  \<^verbatim>\<open>step\<close>, \<^verbatim>\<open>object_id\<close>, \<^verbatim>\<open>sound\<close>, \<^verbatim>\<open>other_body\<close>
  and \<^verbatim>\<open>tool_touch\<close>.
\<close>

record event =
  ev_step :: nat
  ev_object_id :: body
  ev_sound :: label
  ev_other_body :: body
  ev_tool_touch :: bool

text \<open>
  The NumPy generator is a library outside the repository. A seeded generator is
  deterministic: its seed fixes the whole sequence of samples, and each draw consumes the
  next ones. The state is therefore that sequence together with the number of samples
  consumed so far. \<open>rng_stream g i\<close> stands for the \<open>i\<close>-th normal sample, as stored after
  \<^verbatim>\<open>.astype("float32")\<close>; the family of sequences (one per seed) is a parameter of
  the model.
\<close>

record rng_state =
  rng_stream :: "nat \<Rightarrow> real"
  rng_pos :: nat

definition default_rng :: "(nat \<Rightarrow> nat \<Rightarrow> real) \<Rightarrow> nat \<Rightarrow> rng_state" where
  "default_rng bitgen seed = \<lparr>rng_stream = bitgen seed, rng_pos = 0\<rparr>"

text \<open>\<^verbatim>\<open>rng.normal(size=(n,))\<close>: the next \<open>n\<close> samples, and the advanced generator.\<close>

definition rng_normal :: "rng_state \<Rightarrow> nat \<Rightarrow> real list \<times> rng_state" where
  "rng_normal g n =
     (map (rng_stream g) [rng_pos g ..< rng_pos g + n], g\<lparr>rng_pos := rng_pos g + n\<rparr>)"

text \<open>
  The attributes of the wrapper. \<^verbatim>\<open>object_sound_map\<close> is a Python dict that
  \<^verbatim>\<open>reset\<close> iterates in insertion order while it draws from the generator, so it is
  an association list (a dict has no duplicate keys: theorems that depend on it assume
  \<open>distinct (map fst m)\<close>). The other dicts are only read and written by key and are maps.
\<close>

record wrapper =
  object_sound_map :: "(body \<times> label option) list"
  cooldown :: real
  ignore_bodies :: "body set"
  tool_bodies :: "body set"
  terminate_on_silent_touch :: bool
  silent_penalty :: real
  last_play_time :: "body \<rightharpoonup> real"
  audio_events :: "event list"
  step_count :: nat
  emb_dim :: nat
  rng :: rng_state
  audio_obj_emb :: "body \<rightharpoonup> real list"

datatype py_error = TypeError | OverflowError

text \<open>
  The values stored under the keys of \<^verbatim>\<open>info\<close>: the four kinds the wrapper writes,
  a string (the termination reason), and whatever the simulator put there.
\<close>

datatype 'x info_value =
    AudioEvents "event list"
  | AudioIdentity "(body \<times> label option) list"
  | AudioObjEmb "body \<rightharpoonup> real list"
  | AudioEmbDim nat
  | StrVal string
  | EnvVal 'x

type_synonym 'x info = "string \<rightharpoonup> 'x info_value"

section \<open>Construction\<close>

text \<open>
  The arguments of the constructor that it converts. \<^verbatim>\<open>silent_penalty\<close> is a Python
  number, a float or an unbounded integer. \<^verbatim>\<open>ignore_bodies\<close> and \<^verbatim>\<open>tool_bodies\<close>
  are \<^verbatim>\<open>None\<close> (or another false value), a collection of body ids, or a true value that
  cannot be iterated, such as a single body id passed by mistake.
\<close>

datatype py_num = PyFloat real | PyInt int

datatype py_bodies = NoBodies | BodySet "body set" | NotIterable

text \<open>
  \<^verbatim>\<open>float(x)\<close>: a float is returned as it is; an integer whose magnitude reaches
  \<open>2 ^ 1024 - 2 ^ 970\<close> (the first value that rounds beyond the largest double) raises
  \<^verbatim>\<open>OverflowError\<close>. The rounding of a smaller integer to the nearest double is left
  out, as rounding is throughout.
\<close>

fun py_float :: "py_num \<Rightarrow> py_error + real" where
  "py_float (PyFloat x) = Inr x"
| "py_float (PyInt n) =
     (if 2 ^ 1024 - 2 ^ 970 \<le> \<bar>n\<bar> then Inl OverflowError else Inr (real_of_int n))"

text \<open>\<^verbatim>\<open>set(bodies or [])\<close>: a false value gives the empty set, a value that cannot be
  iterated raises \<^verbatim>\<open>TypeError\<close>.\<close>

fun py_set_or_empty :: "py_bodies \<Rightarrow> py_error + body set" where
  "py_set_or_empty NoBodies = Inr {}"
| "py_set_or_empty (BodySet bs) = Inr bs"
| "py_set_or_empty NotIterable = Inl TypeError"

text \<open>
  \<^verbatim>\<open>__init__\<close>. The two sets are built first (lines 38 and 39), then the penalty is
  converted (line 42); the first conversion that raises ends the construction. Nothing
  else in the constructor can raise, and it has no \<^verbatim>\<open>raise\<close> of its own. The
  \<^verbatim>\<open>debug\<close> flag only prints and the sound bank only feeds the detached player, so
  neither is part of the state.
\<close>

definition init ::
  "(nat \<Rightarrow> nat \<Rightarrow> real) \<Rightarrow> (body \<times> label option) list \<Rightarrow> real \<Rightarrow> py_bodies \<Rightarrow>
   py_bodies \<Rightarrow> bool \<Rightarrow> py_num \<Rightarrow> py_error + wrapper" where
  "init bitgen osm cd ignore tool terminate penalty =
     (case py_set_or_empty ignore of
        Inl e \<Rightarrow> Inl e
      | Inr ignore_set \<Rightarrow>
          (case py_set_or_empty tool of
             Inl e \<Rightarrow> Inl e
           | Inr tool_set \<Rightarrow>
               (case py_float penalty of
                  Inl e \<Rightarrow> Inl e
                | Inr pen \<Rightarrow>
                    Inr \<lparr>object_sound_map = osm,
                         cooldown = cd,
                         ignore_bodies = ignore_set,
                         tool_bodies = tool_set,
                         terminate_on_silent_touch = terminate,
                         silent_penalty = pen,
                         last_play_time = Map.empty,
                         audio_events = [],
                         step_count = 0,
                         emb_dim = 128,
                         rng = default_rng bitgen 42,
                         audio_obj_emb = Map.empty\<rparr>)))"

section \<open>Reset\<close>

text \<open>
  The loop of \<^verbatim>\<open>reset\<close> over \<^verbatim>\<open>self.object_sound_map.items()\<close>: a silent entry
  is skipped, any other entry gets \<^verbatim>\<open>emb_dim\<close> fresh samples.
\<close>

fun reset_embs ::
  "nat \<Rightarrow> (body \<times> label option) list \<Rightarrow> rng_state \<times> (body \<rightharpoonup> real list) \<Rightarrow>
   rng_state \<times> (body \<rightharpoonup> real list)" where
  "reset_embs d [] (g, e) = (g, e)"
| "reset_embs d ((obj_id, None) # items) (g, e) = reset_embs d items (g, e)"
| "reset_embs d ((obj_id, Some l) # items) (g, e) =
     (case rng_normal g d of (v, g') \<Rightarrow> reset_embs d items (g', e(obj_id \<mapsto> v)))"

text \<open>
  \<^verbatim>\<open>reset\<close> as a state transformer. Its return value is whatever the simulator's own
  \<^verbatim>\<open>reset\<close> returns, passed through; the wrapper's state is updated before that call.
\<close>

definition reset :: "wrapper \<Rightarrow> wrapper" where
  "reset s =
     (case reset_embs (emb_dim s) (object_sound_map s) (rng s, Map.empty) of
        (g, e) \<Rightarrow>
          s\<lparr>audio_events := [], last_play_time := Map.empty, step_count := 0,
            rng := g, audio_obj_emb := e\<rparr>)"

section \<open>Step\<close>

text \<open>
  The body of the inner loop of \<^verbatim>\<open>step\<close>, for one ordering \<open>(hit_id, other_id)\<close> of a
  contact pair. The loop carries the wrapper and the flag \<^verbatim>\<open>silent_violation\<close>.
  \<^verbatim>\<open>self.last_play_time.get(hit_id, 0.0)\<close> reads \<open>0\<close> for an object that has not
  emitted yet. Playing the sound is detached and swallows every error, so it leaves no
  trace in the state.
\<close>

definition step_hit :: "real \<Rightarrow> body \<Rightarrow> body \<Rightarrow> wrapper \<times> bool \<Rightarrow> wrapper \<times> bool" where
  "step_hit now hit_id other_id st =
     (case st of (s, silent_violation) \<Rightarrow>
       (case map_of (object_sound_map s) hit_id of
          None \<Rightarrow> (s, silent_violation)
        | Some sound_label \<Rightarrow>
            let tool_touch = (other_id \<in> tool_bodies s);
                object_touch = (other_id \<notin> ignore_bodies s)
            in if \<not> (tool_touch \<or> object_touch) then (s, silent_violation)
               else
                 (case sound_label of
                    None \<Rightarrow> if tool_touch then (s, True) else (s, silent_violation)
                  | Some l \<Rightarrow>
                      let last = (case last_play_time s hit_id of None \<Rightarrow> 0 | Some t \<Rightarrow> t)
                      in if now - last < cooldown s then (s, silent_violation)
                         else
                           (s\<lparr>audio_events := audio_events s @
                                 [\<lparr>ev_step = step_count s, ev_object_id = hit_id,
                                   ev_sound = l, ev_other_body = other_id,
                                   ev_tool_touch = tool_touch\<rparr>],
                               last_play_time := (last_play_time s)(hit_id \<mapsto> now)\<rparr>,
                            silent_violation))))"

text \<open>
  The body of the outer loop, for one contact point with the bodies \<open>(body_a, body_b)\<close>
  (\<^verbatim>\<open>cp[1]\<close> and \<^verbatim>\<open>cp[2]\<close>): an ignored body on either side skips the pair, otherwise
  both orderings are processed, \<open>(body_a, body_b)\<close> first.
\<close>

definition step_contact :: "real \<Rightarrow> body \<times> body \<Rightarrow> wrapper \<times> bool \<Rightarrow> wrapper \<times> bool" where
  "step_contact now cp st =
     (case cp of (body_a, body_b) \<Rightarrow>
        if body_a \<in> ignore_bodies (fst st) \<or> body_b \<in> ignore_bodies (fst st) then st
        else step_hit now body_b body_a (step_hit now body_a body_b st))"

definition step_contacts :: "real \<Rightarrow> (body \<times> body) list \<Rightarrow> wrapper \<times> bool \<Rightarrow> wrapper \<times> bool" where
  "step_contacts now cps st = fold (step_contact now) cps st"

text \<open>
  \<^verbatim>\<open>step\<close>. Its inputs are what the outside world returns during the call: the tuple
  of the simulator's \<^verbatim>\<open>step\<close> (whose \<^verbatim>\<open>info\<close> may be \<^verbatim>\<open>None\<close>), the clock reading
  \<^verbatim>\<open>time.time()\<close> and the body pairs of \<^verbatim>\<open>p.getContactPoints()\<close>. The result is the
  returned tuple or the exception raised, and the wrapper as the call leaves it.
  \<^verbatim>\<open>dict(info)\<close> in the termination branch raises \<^verbatim>\<open>TypeError\<close> on \<^verbatim>\<open>None\<close>; the
  later copy is guarded by \<^verbatim>\<open>if info is not None\<close>.
\<close>

definition step ::
  "wrapper \<Rightarrow> 'o \<times> real \<times> bool \<times> 'x info option \<Rightarrow> real \<Rightarrow> (body \<times> body) list \<Rightarrow>
   (py_error + 'o \<times> real \<times> bool \<times> 'x info) \<times> wrapper" where
  "step s env_out now cps =
     (case env_out of (obs, reward, done, info) \<Rightarrow>
       (case step_contacts now cps (s\<lparr>step_count := step_count s + 1\<rparr>, False) of
          (s', silent_violation) \<Rightarrow>
            let expose = (\<lambda>d. d(''audio_events'' \<mapsto> AudioEvents (audio_events s'),
                                 ''audio_identity'' \<mapsto> AudioIdentity (object_sound_map s'),
                                 ''audio_obj_emb'' \<mapsto> AudioObjEmb (audio_obj_emb s'),
                                 ''audio_emb_dim'' \<mapsto> AudioEmbDim (emb_dim s')))
            in if terminate_on_silent_touch s' \<and> silent_violation \<and> \<not> done then
                 (case info of
                    None \<Rightarrow> (Inl TypeError, s')
                  | Some d \<Rightarrow>
                      (Inr (obs, silent_penalty s', True,
                            expose (d(''terminated_reason'' \<mapsto>
                                      StrVal ''touched_silent_object_with_tool''))), s'))
               else
                 (Inr (obs, reward, done,
                       expose (case info of None \<Rightarrow> Map.empty | Some d \<Rightarrow> d)), s')))"

section \<open>Runs of the wrapper\<close>

text \<open>
  The states a wrapper can be in: the one its constructor builds from a dict (keys without
  duplicates), and every state a \<^verbatim>\<open>reset\<close> or a \<^verbatim>\<open>step\<close> leaves behind. The
  wrapper a \<^verbatim>\<open>step\<close> leaves does not depend on the simulator's tuple (lemma
  \<open>step_state_any_env\<close> below), so the rule for \<^verbatim>\<open>step\<close> is stated for one type of
  observations and simulator values.
\<close>

inductive reachable :: "wrapper \<Rightarrow> bool" where
  reachable_init:
    "distinct (map fst osm) \<Longrightarrow> init bitgen osm cd ignore tool terminate penalty = Inr s \<Longrightarrow>
     reachable s"
| reachable_reset: "reachable s \<Longrightarrow> reachable (reset s)"
| reachable_step:
    "reachable s \<Longrightarrow>
     reachable (snd (step s (env_out :: unit \<times> real \<times> bool \<times> unit info option) now cps))"

text \<open>
  A run is a sequence of calls on one wrapper. A \<^verbatim>\<open>step\<close> call carries what the
  simulator, the clock and the contact query answer during it. A call that raises leaves
  the wrapper as it was when the exception left \<^verbatim>\<open>step\<close>.
\<close>

datatype ('o, 'x) call =
    is_Reset: Reset
  | Step "'o \<times> real \<times> bool \<times> 'x info option" real "(body \<times> body) list"

fun run :: "wrapper \<Rightarrow> ('o, 'x) call list \<Rightarrow> wrapper" where
  "run s [] = s"
| "run s (Reset # cs) = run (reset s) cs"
| "run s (Step env_out now cps # cs) = run (snd (step s env_out now cps)) cs"

section \<open>What the contact loop leaves alone\<close>

lemma step_hit_frame:
  assumes "step_hit now h o' (s, v) = (s', v')"
  shows "object_sound_map s' = object_sound_map s" "cooldown s' = cooldown s"
    "ignore_bodies s' = ignore_bodies s" "tool_bodies s' = tool_bodies s"
    "terminate_on_silent_touch s' = terminate_on_silent_touch s"
    "silent_penalty s' = silent_penalty s" "step_count s' = step_count s"
    "emb_dim s' = emb_dim s" "rng s' = rng s" "audio_obj_emb s' = audio_obj_emb s"
  using assms
  by (auto simp: step_hit_def Let_def split: option.splits if_splits)

lemma step_contact_frame:
  assumes "step_contact now cp (s, v) = (s', v')"
  shows "object_sound_map s' = object_sound_map s" "cooldown s' = cooldown s"
    "ignore_bodies s' = ignore_bodies s" "tool_bodies s' = tool_bodies s"
    "terminate_on_silent_touch s' = terminate_on_silent_touch s"
    "silent_penalty s' = silent_penalty s" "step_count s' = step_count s"
    "emb_dim s' = emb_dim s" "rng s' = rng s" "audio_obj_emb s' = audio_obj_emb s"
proof -
  obtain a b where cp: "cp = (a, b)" by (cases cp)
  obtain s1 v1 where h1: "step_hit now a b (s, v) = (s1, v1)" by (cases "step_hit now a b (s, v)")
  obtain s2 v2 where h2: "step_hit now b a (s1, v1) = (s2, v2)" by (cases "step_hit now b a (s1, v1)")
  have "(s', v') = (s, v) \<or> (s', v') = (s2, v2)"
    using assms cp h1 h2 by (auto simp: step_contact_def split: if_splits)
  then show "object_sound_map s' = object_sound_map s" "cooldown s' = cooldown s"
    "ignore_bodies s' = ignore_bodies s" "tool_bodies s' = tool_bodies s"
    "terminate_on_silent_touch s' = terminate_on_silent_touch s"
    "silent_penalty s' = silent_penalty s" "step_count s' = step_count s"
    "emb_dim s' = emb_dim s" "rng s' = rng s" "audio_obj_emb s' = audio_obj_emb s"
    using step_hit_frame[OF h1] step_hit_frame[OF h2] by auto
qed

lemma step_contacts_frame:
  assumes "step_contacts now cps (s, v) = (s', v')"
  shows "object_sound_map s' = object_sound_map s \<and> cooldown s' = cooldown s \<and>
    ignore_bodies s' = ignore_bodies s \<and> tool_bodies s' = tool_bodies s \<and>
    terminate_on_silent_touch s' = terminate_on_silent_touch s \<and>
    silent_penalty s' = silent_penalty s \<and> step_count s' = step_count s \<and>
    emb_dim s' = emb_dim s \<and> rng s' = rng s \<and> audio_obj_emb s' = audio_obj_emb s"
  using assms
proof (induction cps arbitrary: s v)
  case Nil
  then show ?case by (simp add: step_contacts_def)
next
  case (Cons cp cps)
  obtain s1 v1 where c: "step_contact now cp (s, v) = (s1, v1)"
    by (cases "step_contact now cp (s, v)")
  with Cons.prems have "step_contacts now cps (s1, v1) = (s', v')"
    by (simp add: step_contacts_def)
  from Cons.IH[OF this] step_contact_frame[OF c] show ?case by simp
qed

section \<open>Reset clears the episode state\<close>

lemma reset_simps:
  "audio_events (reset s) = []"
  "last_play_time (reset s) = Map.empty"
  "step_count (reset s) = 0"
  "object_sound_map (reset s) = object_sound_map s"
  "emb_dim (reset s) = emb_dim s"
  "cooldown (reset s) = cooldown s"
  "ignore_bodies (reset s) = ignore_bodies s"
  "tool_bodies (reset s) = tool_bodies s"
  "terminate_on_silent_touch (reset s) = terminate_on_silent_touch s"
  "silent_penalty (reset s) = silent_penalty s"
  by (simp_all add: reset_def split: prod.splits)

text \<open>
  C9. After a call to \<^verbatim>\<open>reset\<close>, whatever the state before it (however many events the
  previous episode logged, whatever last-emission times it recorded), the event log is
  empty and no object has a recorded last-emission time.
\<close>

theorem C9_reset_clears_log_and_cooldown:
  "audio_events (reset s) = [] \<and> dom (last_play_time (reset s)) = {}"
  by (simp add: reset_simps)

section \<open>One event per object and step\<close>

lemma step_hit_gate:
  assumes "map_of (object_sound_map s) h = Some (Some l)"
    and "o' \<in> tool_bodies s \<or> o' \<notin> ignore_bodies s"
  shows "step_hit now h o' (s, v) =
    (if now - (case last_play_time s h of None \<Rightarrow> 0 | Some t \<Rightarrow> t) < cooldown s then (s, v)
     else (s\<lparr>audio_events := audio_events s @
                [\<lparr>ev_step = step_count s, ev_object_id = h, ev_sound = l,
                  ev_other_body = o', ev_tool_touch = (o' \<in> tool_bodies s)\<rparr>],
              last_play_time := (last_play_time s)(h \<mapsto> now)\<rparr>, v))"
  using assms by (auto simp: step_hit_def Let_def)

lemma step_hit_cases:
  "step_hit now h o' (s, v) = (s, v) \<or> step_hit now h o' (s, v) = (s, True) \<and> map_of (object_sound_map s) h = Some None \<and> o' \<in> tool_bodies s \<or>
   (\<exists>l. map_of (object_sound_map s) h = Some (Some l) \<and>
        \<not> now - (case last_play_time s h of None \<Rightarrow> 0 | Some t \<Rightarrow> t) < cooldown s \<and>
        step_hit now h o' (s, v) =
          (s\<lparr>audio_events := audio_events s @
                [\<lparr>ev_step = step_count s, ev_object_id = h, ev_sound = l,
                  ev_other_body = o', ev_tool_touch = (o' \<in> tool_bodies s)\<rparr>],
              last_play_time := (last_play_time s)(h \<mapsto> now)\<rparr>, v))"
  by (auto simp: step_hit_def Let_def split: option.splits)

lemma step_hit_once:
  assumes cd: "0 < cooldown s"
    and ev: "audio_events s = old @ new"
    and cnt: "\<forall>k. length (filter (\<lambda>e. ev_object_id e = k) new) \<le> 1"
    and rec: "\<forall>e\<in>set new. last_play_time s (ev_object_id e) = Some now"
    and st: "step_hit now h o' (s, v) = (s', v')"
  shows "cooldown s' = cooldown s \<and> (\<exists>new'. audio_events s' = old @ new' \<and>
           (\<forall>k. length (filter (\<lambda>e. ev_object_id e = k) new') \<le> 1) \<and>
           (\<forall>e\<in>set new'. last_play_time s' (ev_object_id e) = Some now))"
proof -
  consider (same) "s' = s"
    | (emit) l where "\<not> now - (case last_play_time s h of None \<Rightarrow> 0 | Some t \<Rightarrow> t) < cooldown s"
        "s' = s\<lparr>audio_events := audio_events s @
                [\<lparr>ev_step = step_count s, ev_object_id = h, ev_sound = l,
                  ev_other_body = o', ev_tool_touch = (o' \<in> tool_bodies s)\<rparr>],
              last_play_time := (last_play_time s)(h \<mapsto> now)\<rparr>"
    using step_hit_cases[of now h o' s v] st by auto
  then show ?thesis
  proof cases
    case same
    with ev cnt rec show ?thesis by auto
  next
    case emit
    from emit(1) cd have "last_play_time s h \<noteq> Some now" by auto
    with rec have none: "\<forall>e\<in>set new. ev_object_id e \<noteq> h" by auto
    then have f0: "filter (\<lambda>e. ev_object_id e = h) new = []"
      by (auto simp: filter_empty_conv)
    let ?e = "\<lparr>ev_step = step_count s, ev_object_id = h, ev_sound = l,
                  ev_other_body = o', ev_tool_touch = (o' \<in> tool_bodies s)\<rparr>"
    have a: "audio_events s' = old @ (new @ [?e])" using emit(2) ev by simp
    have b: "\<forall>k. length (filter (\<lambda>e. ev_object_id e = k) (new @ [?e])) \<le> 1"
      using cnt f0 by auto
    have c: "\<forall>e\<in>set (new @ [?e]). last_play_time s' (ev_object_id e) = Some now"
      using rec emit(2) by auto
    have "cooldown s' = cooldown s" using emit(2) by simp
    with a b c show ?thesis by blast
  qed
qed

lemma step_contact_once:
  assumes cd: "0 < cooldown s"
    and ev: "audio_events s = old @ new"
    and cnt: "\<forall>k. length (filter (\<lambda>e. ev_object_id e = k) new) \<le> 1"
    and rec: "\<forall>e\<in>set new. last_play_time s (ev_object_id e) = Some now"
    and st: "step_contact now cp (s, v) = (s', v')"
  shows "cooldown s' = cooldown s \<and> (\<exists>new'. audio_events s' = old @ new' \<and>
           (\<forall>k. length (filter (\<lambda>e. ev_object_id e = k) new') \<le> 1) \<and>
           (\<forall>e\<in>set new'. last_play_time s' (ev_object_id e) = Some now))"
proof -
  obtain a b where cp: "cp = (a, b)" by (cases cp)
  obtain s1 v1 where h1: "step_hit now a b (s, v) = (s1, v1)" by (cases "step_hit now a b (s, v)")
  obtain s2 v2 where h2: "step_hit now b a (s1, v1) = (s2, v2)" by (cases "step_hit now b a (s1, v1)")
  from step_hit_once[OF cd ev cnt rec h1] obtain new1 where
    1: "cooldown s1 = cooldown s" "audio_events s1 = old @ new1"
       "\<forall>k. length (filter (\<lambda>e. ev_object_id e = k) new1) \<le> 1"
       "\<forall>e\<in>set new1. last_play_time s1 (ev_object_id e) = Some now"
    by blast
  from 1(1) cd have cd1: "0 < cooldown s1" by simp
  from step_hit_once[OF cd1 1(2) 1(3) 1(4) h2] 1(1) have
    2: "cooldown s2 = cooldown s \<and> (\<exists>new'. audio_events s2 = old @ new' \<and>
           (\<forall>k. length (filter (\<lambda>e. ev_object_id e = k) new') \<le> 1) \<and>
           (\<forall>e\<in>set new'. last_play_time s2 (ev_object_id e) = Some now))"
    by simp
  have "(s', v') = (s, v) \<or> (s', v') = (s2, v2)"
    using st cp h1 h2 by (auto simp: step_contact_def split: if_splits)
  then show ?thesis
  proof
    assume "(s', v') = (s, v)"
    with ev cnt rec show ?thesis by auto
  next
    assume "(s', v') = (s2, v2)"
    with 2 show ?thesis by simp
  qed
qed

lemma step_contacts_once:
  assumes "0 < cooldown s"
    and "audio_events s = old @ new"
    and "\<forall>k. length (filter (\<lambda>e. ev_object_id e = k) new) \<le> 1"
    and "\<forall>e\<in>set new. last_play_time s (ev_object_id e) = Some now"
    and "step_contacts now cps (s, v) = (s', v')"
  shows "\<exists>new'. audio_events s' = old @ new' \<and>
           (\<forall>k. length (filter (\<lambda>e. ev_object_id e = k) new') \<le> 1)"
  using assms
proof (induction cps arbitrary: s v new)
  case Nil
  then show ?case by (auto simp: step_contacts_def)
next
  case (Cons cp cps)
  obtain s1 v1 where c: "step_contact now cp (s, v) = (s1, v1)"
    by (cases "step_contact now cp (s, v)")
  with Cons.prems(5) have r: "step_contacts now cps (s1, v1) = (s', v')"
    by (simp add: step_contacts_def)
  from step_contact_once[OF Cons.prems(1-4) c] obtain new1 where
    1: "cooldown s1 = cooldown s" "audio_events s1 = old @ new1"
       "\<forall>k. length (filter (\<lambda>e. ev_object_id e = k) new1) \<le> 1"
       "\<forall>e\<in>set new1. last_play_time s1 (ev_object_id e) = Some now"
    by blast
  from 1(1) Cons.prems(1) have "0 < cooldown s1" by simp
  from Cons.IH[OF this 1(2) 1(3) 1(4) r] show ?case .
qed

text \<open>
  C10. In one \<^verbatim>\<open>step\<close> call with a strictly positive cooldown, the events the call
  appends to the log hold at most one event per object id, however many contact pairs
  involve the object: the call samples one clock reading, the first emission records it
  for the object, and every later check in the same call sees a difference of zero.
\<close>

theorem C10_at_most_one_event_per_object_per_step:
  assumes "0 < cooldown s"
    and "step s env_out now cps = (r, s')"
  shows "\<exists>new. audio_events s' = audio_events s @ new \<and>
           (\<forall>k. length (filter (\<lambda>e. ev_object_id e = k) new) \<le> 1)"
proof -
  obtain obs reward dn info where eo: "env_out = (obs, reward, dn, info)"
    by (cases env_out)
  obtain s2 v2 where l: "step_contacts now cps (s\<lparr>step_count := step_count s + 1\<rparr>, False) = (s2, v2)"
    by (cases "step_contacts now cps (s\<lparr>step_count := step_count s + 1\<rparr>, False)")
  have "s' = s2"
    using assms(2) eo l by (auto simp: step_def Let_def split: if_splits option.splits)
  moreover have "\<exists>new'. audio_events s2 = audio_events s @ new' \<and>
           (\<forall>k. length (filter (\<lambda>e. ev_object_id e = k) new') \<le> 1)"
    by (rule step_contacts_once[where new = "[]" and s = "s\<lparr>step_count := step_count s + 1\<rparr>", OF _ _ _ _ l])
       (use assms(1) in simp_all)
  ultimately show ?thesis by simp
qed

theorem C10_at_most_one_event_per_object_per_step_witness:
  "0 < cooldown (reset (projr (init (\<lambda>seed i. 0) [(5, Some ''tingting'')] (1 / 4) NoBodies (BodySet {1}) False (PyFloat (- 1)))))
   \<and> (\<exists>new. audio_events (snd (step (reset (projr (init (\<lambda>seed i. 0) [(5, Some ''tingting'')] (1 / 4) NoBodies (BodySet {1}) False (PyFloat (- 1)))))
                    ((), 0, False, Some (Map.empty :: unit info)) 1700000000 [(5, 1), (1, 5), (5, 1)]))
             = audio_events (reset (projr (init (\<lambda>seed i. 0) [(5, Some ''tingting'')] (1 / 4) NoBodies (BodySet {1}) False (PyFloat (- 1))))) @ new
          \<and> (\<forall>k. length (filter (\<lambda>e. ev_object_id e = k) new) \<le> 1))"
proof -
  let ?s = "reset (projr (init (\<lambda>seed i. 0) [(5, Some ''tingting'')] (1 / 4) NoBodies (BodySet {1}) False (PyFloat (- 1))))"
  have h: "0 < cooldown ?s" by (simp add: reset_simps init_def)
  show ?thesis
    using h C10_at_most_one_event_per_object_per_step [OF h prod.collapse [symmetric],
        of "((), 0, False, Some (Map.empty :: unit info))" 1700000000 "[(5, 1), (1, 5), (5, 1)]"]
    by blast
qed

section \<open>The cooldown gate\<close>

text \<open>
  The claim C2 as written lets the first emission of an object through whatever the
  cooldown. The code has no separate case for it: an object without a recorded time is
  read as having emitted at time \<open>0\<close>. With a cooldown longer than the clock reading
  (here two thousand million seconds, against a reading of 1700000000) object 5 has no
  prior emission, touches the tool, and the log stays empty. The same happens with the
  default cooldown of a quarter of a second when the clock reads \<open>0\<close>.
\<close>

theorem C2_first_emission_suppressed_counterexample:
  "last_play_time (reset (projr (init (\<lambda>seed i. 0) [(5, Some ''tingting'')] 2000000000 NoBodies (BodySet {1}) False (PyFloat (- 1))))) 5 = None
   \<and> audio_events (snd (step (reset (projr (init (\<lambda>seed i. 0) [(5, Some ''tingting'')] 2000000000 NoBodies (BodySet {1}) False (PyFloat (- 1)))))
                    ((), 0, False, Some (Map.empty :: unit info)) 1700000000 [(5, 1)])) = []
   \<and> last_play_time (reset (projr (init (\<lambda>seed i. 0) [(5, Some ''tingting'')] (1 / 4) NoBodies (BodySet {1}) False (PyFloat (- 1))))) 5 = None
   \<and> audio_events (snd (step (reset (projr (init (\<lambda>seed i. 0) [(5, Some ''tingting'')] (1 / 4) NoBodies (BodySet {1}) False (PyFloat (- 1)))))
                    ((), 0, False, Some (Map.empty :: unit info)) 0 [(5, 1)])) = []"
  by (simp add: step_def step_contacts_def step_contact_def step_hit_def reset_simps init_def Let_def)

text \<open>
  C2, as amended. For a tracked object with a sound label, in a contact the classifier
  accepts, the emission is allowed at the clock reading \<open>now\<close> (the event is appended and
  \<open>now\<close> becomes the object's last-emission time) if and only if \<open>now - t0\<close> is at least
  the cooldown, where \<open>t0\<close> is the object's recorded last-emission time, or \<open>0\<close> when it has
  none. A suppressed emission leaves the whole wrapper as it was: nothing is appended and
  no time is recorded. With a cooldown of zero the emission is allowed whenever the clock
  reading is not before \<open>t0\<close>. The violation flag is not touched.
\<close>

theorem C2_cooldown_gate:
  assumes "map_of (object_sound_map s) h = Some (Some l)"
    and "o' \<in> tool_bodies s \<or> o' \<notin> ignore_bodies s"
    and "t0 = (case last_play_time s h of None \<Rightarrow> 0 | Some t \<Rightarrow> t)"
    and "step_hit now h o' (s, v) = (s', v')"
  shows "((audio_events s' = audio_events s @
              [\<lparr>ev_step = step_count s, ev_object_id = h, ev_sound = l,
                ev_other_body = o', ev_tool_touch = (o' \<in> tool_bodies s)\<rparr>]
            \<and> last_play_time s' = (last_play_time s)(h \<mapsto> now))
           \<longleftrightarrow> cooldown s \<le> now - t0)
       \<and> (now - t0 < cooldown s \<longrightarrow> s' = s)
       \<and> (cooldown s = 0 \<and> t0 \<le> now \<longrightarrow> audio_events s' \<noteq> audio_events s \<and> last_play_time s' h = Some now)
       \<and> v' = v"
  using assms(3,4) step_hit_gate[OF assms(1,2), of now v]
  by (auto split: if_splits)

theorem C2_cooldown_gate_witness:
  "map_of (object_sound_map (reset (projr (init (\<lambda>seed i. 0) [(5, Some ''tingting'')] (1 / 4) NoBodies (BodySet {1}) False (PyFloat (- 1)))))) 5
     = Some (Some ''tingting'')
   \<and> 1 \<in> tool_bodies (reset (projr (init (\<lambda>seed i. 0) [(5, Some ''tingting'')] (1 / 4) NoBodies (BodySet {1}) False (PyFloat (- 1)))))
   \<and> cooldown (reset (projr (init (\<lambda>seed i. 0) [(5, Some ''tingting'')] (1 / 4) NoBodies (BodySet {1}) False (PyFloat (- 1))))) \<le> 1700000000 - 0
   \<and> audio_events (fst (step_hit 1700000000 5 1
         (reset (projr (init (\<lambda>seed i. 0) [(5, Some ''tingting'')] (1 / 4) NoBodies (BodySet {1}) False (PyFloat (- 1)))), False)))
       = [\<lparr>ev_step = 0, ev_object_id = 5, ev_sound = ''tingting'', ev_other_body = 1, ev_tool_touch = True\<rparr>]
   \<and> last_play_time (fst (step_hit 1700000000 5 1
         (reset (projr (init (\<lambda>seed i. 0) [(5, Some ''tingting'')] (1 / 4) NoBodies (BodySet {1}) False (PyFloat (- 1)))), False))) 5
       = Some 1700000000"
proof -
  let ?s = "reset (projr (init (\<lambda>seed i. 0) [(5, Some ''tingting'')] (1 / 4) NoBodies (BodySet {1}) False (PyFloat (- 1))))"
  have h1: "map_of (object_sound_map ?s) 5 = Some (Some ''tingting'')"
    by (simp add: reset_simps init_def)
  have h2: "1 \<in> tool_bodies ?s \<or> 1 \<notin> ignore_bodies ?s"
    by (simp add: reset_simps init_def)
  have h3: "(0::real) = (case last_play_time ?s 5 of None \<Rightarrow> 0 | Some t \<Rightarrow> t)"
    by (simp add: reset_simps)
  have h4: "cooldown ?s \<le> 1700000000 - 0"
    by (simp add: reset_simps init_def)
  from C2_cooldown_gate [OF h1 h2 h3 prod.collapse [symmetric], of 1700000000 False] h4
  have "audio_events (fst (step_hit 1700000000 5 1 (?s, False))) = audio_events ?s @
          [\<lparr>ev_step = step_count ?s, ev_object_id = 5, ev_sound = ''tingting'',
            ev_other_body = 1, ev_tool_touch = (1 \<in> tool_bodies ?s)\<rparr>]
        \<and> last_play_time (fst (step_hit 1700000000 5 1 (?s, False))) = (last_play_time ?s)(5 \<mapsto> 1700000000)"
    by blast
  then show ?thesis using h1 h4 by (simp add: reset_simps init_def)
qed

section \<open>Ignored bodies\<close>

lemma step_contacts_append:
  "step_contacts now (xs @ ys) st = step_contacts now ys (step_contacts now xs st)"
  by (simp add: step_contacts_def)

lemma step_contacts_Cons:
  "step_contacts now (cp # cps) st = step_contacts now cps (step_contact now cp st)"
  by (simp add: step_contacts_def)

lemma step_contact_ignored:
  "a \<in> ignore_bodies (fst st) \<or> b \<in> ignore_bodies (fst st) \<Longrightarrow> step_contact now (a, b) st = st"
  by (simp add: step_contact_def)

text \<open>
  C3. A contact pair with a body of the ignore-set on either side has no effect at all:
  wherever it stands among the contacts of a step, the call returns the same tuple and
  leaves the same wrapper as without it. So the pair appends no event and flags no
  violation, whatever the labels of its bodies.
\<close>

theorem C3_ignored_pair_has_no_effect:
  assumes "a \<in> ignore_bodies s \<or> b \<in> ignore_bodies s"
  shows "step s env_out now (pre @ (a, b) # post) = step s env_out now (pre @ post)"
proof -
  let ?st0 = "(s\<lparr>step_count := step_count s + 1\<rparr>, False)"
  obtain s1 v1 where p: "step_contacts now pre ?st0 = (s1, v1)"
    by (cases "step_contacts now pre ?st0")
  from step_contacts_frame[OF p] have "ignore_bodies s1 = ignore_bodies s" by simp
  with assms have "step_contact now (a, b) (s1, v1) = (s1, v1)"
    by (simp add: step_contact_ignored)
  with p have "step_contacts now (pre @ (a, b) # post) ?st0 = step_contacts now (pre @ post) ?st0"
    by (simp add: step_contacts_append step_contacts_Cons)
  then show ?thesis by (simp add: step_def)
qed

theorem C3_ignored_pair_has_no_effect_witness:
  "0 \<in> ignore_bodies (reset (projr (init (\<lambda>seed i. 0) [(5, None), (6, Some ''thud'')] (1 / 4) (BodySet {0}) (BodySet {0, 1}) True (PyFloat (- 1)))))
   \<and> step (reset (projr (init (\<lambda>seed i. 0) [(5, None), (6, Some ''thud'')] (1 / 4) (BodySet {0}) (BodySet {0, 1}) True (PyFloat (- 1)))))
            ((), 0, False, Some (Map.empty :: unit info)) 1700000000 [(6, 1), (0, 5), (6, 5)]
     = step (reset (projr (init (\<lambda>seed i. 0) [(5, None), (6, Some ''thud'')] (1 / 4) (BodySet {0}) (BodySet {0, 1}) True (PyFloat (- 1)))))
            ((), 0, False, Some (Map.empty :: unit info)) 1700000000 [(6, 1), (6, 5)]"
proof -
  let ?s = "reset (projr (init (\<lambda>seed i. 0) [(5, None), (6, Some ''thud'')] (1 / 4) (BodySet {0}) (BodySet {0, 1}) True (PyFloat (- 1))))"
  have h: "0 \<in> ignore_bodies ?s \<or> 5 \<in> ignore_bodies ?s"
    by (simp add: reset_simps init_def)
  have m: "0 \<in> ignore_bodies ?s"
    by (simp add: reset_simps init_def)
  from C3_ignored_pair_has_no_effect [OF h, of "((), 0, False, Some (Map.empty :: unit info))" 1700000000 "[(6, 1)]" "[(6, 5)]"] m
  show ?thesis by simp
qed

section \<open>Contacts between objects\<close>




section \<open>Termination on touching a silent object\<close>

lemma step_hit_flag_mono: "snd (step_hit now h o' (s, True)) = True"
  using step_hit_cases[of now h o' s True] by auto

lemma step_contact_flag_mono: "snd (step_contact now cp (s, True)) = True"
proof -
  obtain a b where cp: "cp = (a, b)" by (cases cp)
  obtain s1 v1 where h1: "step_hit now a b (s, True) = (s1, v1)"
    by (cases "step_hit now a b (s, True)")
  with step_hit_flag_mono[of now a b s] have "v1 = True" by simp
  with h1 step_hit_flag_mono[of now b a s1] show ?thesis
    by (simp add: cp step_contact_def)
qed

lemma step_contacts_flag_mono: "snd (step_contacts now cps (s, True)) = True"
proof (induction cps arbitrary: s)
  case Nil
  then show ?case by (simp add: step_contacts_def)
next
  case (Cons cp cps)
  obtain s1 v1 where c: "step_contact now cp (s, True) = (s1, v1)"
    by (cases "step_contact now cp (s, True)")
  with step_contact_flag_mono[of now cp s] have "v1 = True" by simp
  with c Cons.IH[of s1] show ?case by (simp add: step_contacts_Cons)
qed

lemma step_hit_violation:
  assumes "map_of (object_sound_map s) h = Some None" and "o' \<in> tool_bodies s"
  shows "step_hit now h o' (s, v) = (s, True)"
  using assms by (simp add: step_hit_def)

lemma step_contact_violation:
  assumes ig: "a \<notin> ignore_bodies s" "b \<notin> ignore_bodies s"
    and sides: "(h, o') = (a, b) \<or> (h, o') = (b, a)"
    and lab: "map_of (object_sound_map s) h = Some None"
    and tool: "o' \<in> tool_bodies s"
  shows "snd (step_contact now (a, b) (s, v)) = True"
proof -
  from sides show ?thesis
  proof
    assume "(h, o') = (a, b)"
    with lab tool have "step_hit now a b (s, v) = (s, True)"
      by (simp add: step_hit_violation)
    with ig step_hit_flag_mono[of now b a s] show ?thesis
      by (simp add: step_contact_def)
  next
    assume ba: "(h, o') = (b, a)"
    obtain s1 v1 where h1: "step_hit now a b (s, v) = (s1, v1)"
      by (cases "step_hit now a b (s, v)")
    from step_hit_frame[OF h1] lab tool ba
    have "map_of (object_sound_map s1) b = Some None" "a \<in> tool_bodies s1" by simp_all
    then have "step_hit now b a (s1, v1) = (s1, True)" by (rule step_hit_violation)
    with ig h1 show ?thesis by (simp add: step_contact_def)
  qed
qed

lemma step_contacts_violation:
  assumes "(a, b) \<in> set cps"
    and "a \<notin> ignore_bodies s" "b \<notin> ignore_bodies s"
    and "(h, o') = (a, b) \<or> (h, o') = (b, a)"
    and "map_of (object_sound_map s) h = Some None"
    and "o' \<in> tool_bodies s"
  shows "snd (step_contacts now cps (s, v)) = True"
  using assms
proof (induction cps arbitrary: s v)
  case Nil
  then show ?case by simp
next
  case (Cons cp cps)
  obtain s1 v1 where c: "step_contact now cp (s, v) = (s1, v1)"
    by (cases "step_contact now cp (s, v)")
  show ?case
  proof (cases "cp = (a, b)")
    case True
    from step_contact_violation[OF Cons.prems(2-6), of now v] True c have "v1 = True" by simp
    with c step_contacts_flag_mono[of now cps s1] show ?thesis
      by (simp add: step_contacts_Cons)
  next
    case False
    with Cons.prems(1) have m: "(a, b) \<in> set cps" by simp
    note f = step_contact_frame[OF c]
    have "snd (step_contacts now cps (s1, v1)) = True"
      by (rule Cons.IH[OF m]) (use Cons.prems f in simp_all)
    with c show ?thesis by (simp add: step_contacts_Cons)
  qed
qed

text \<open>
  C1. With termination on silent touch enabled, a contact pair without ignored body in
  which a silent tracked object is touched by a tool body, and a simulator that did not
  report done: when the simulator's \<^verbatim>\<open>info\<close> is a dict, \<^verbatim>\<open>step\<close> returns done, the
  configured penalty as reward and an \<^verbatim>\<open>info\<close> whose key \<^verbatim>\<open>terminated_reason\<close> holds
  \<^verbatim>\<open>touched_silent_object_with_tool\<close>; when the simulator's \<^verbatim>\<open>info\<close> is \<^verbatim>\<open>None\<close>, the
  call raises \<^verbatim>\<open>TypeError\<close> and returns no tuple. When the simulator itself reported
  done, reward and done are returned as they came and the termination reason is whatever
  the simulator's \<^verbatim>\<open>info\<close> held under that key.
\<close>

theorem C1_silent_touch_termination:
  assumes en: "terminate_on_silent_touch s"
    and pair: "(body_a, body_b) \<in> set cps"
    and ig: "body_a \<notin> ignore_bodies s" "body_b \<notin> ignore_bodies s"
    and sides: "(h, o') = (body_a, body_b) \<or> (h, o') = (body_b, body_a)"
    and lab: "map_of (object_sound_map s) h = Some None"
    and tool: "o' \<in> tool_bodies s"
  shows "(\<exists>info'. fst (step s (obs, reward, False, Some d) now cps)
                    = Inr (obs, silent_penalty s, True, info')
                \<and> info' ''terminated_reason'' = Some (StrVal ''touched_silent_object_with_tool''))
       \<and> fst (step s (obs, reward, False, None :: 'x info option) now cps) = Inl TypeError
       \<and> (\<exists>info'. fst (step s (obs, reward, True, info) now cps) = Inr (obs, reward, True, info')
                \<and> info' ''terminated_reason''
                    = (case info of None \<Rightarrow> None | Some d' \<Rightarrow> d' ''terminated_reason''))"
proof -
  let ?st0 = "(s\<lparr>step_count := step_count s + 1\<rparr>, False)"
  obtain s1 v1 where l: "step_contacts now cps ?st0 = (s1, v1)"
    by (cases "step_contacts now cps ?st0")
  have "snd (step_contacts now cps ?st0) = True"
    by (rule step_contacts_violation[OF pair _ _ sides]) (use ig lab tool in simp_all)
  with l have v1: "v1 = True" by simp
  from step_contacts_frame[OF l] en
  have f: "terminate_on_silent_touch s1" "silent_penalty s1 = silent_penalty s" by simp_all
  have a: "\<exists>info'. fst (step s (obs, reward, False, Some d) now cps)
                    = Inr (obs, silent_penalty s, True, info')
                \<and> info' ''terminated_reason'' = Some (StrVal ''touched_silent_object_with_tool'')"
    using l v1 f by (simp add: step_def)
  have b: "fst (step s (obs, reward, False, None :: 'x info option) now cps) = Inl TypeError"
    using l v1 f by (simp add: step_def)
  have c: "\<exists>info'. fst (step s (obs, reward, True, info) now cps) = Inr (obs, reward, True, info')
                \<and> info' ''terminated_reason''
                    = (case info of None \<Rightarrow> None | Some d' \<Rightarrow> d' ''terminated_reason'')"
    using l by (cases info) (simp_all add: step_def)
  from a b c show ?thesis by blast
qed

theorem C1_silent_touch_termination_witness:
  "terminate_on_silent_touch (reset (projr (init (\<lambda>seed i. 0) [(7, None)] (1 / 4) NoBodies (BodySet {1}) True (PyFloat (- 1)))))
   \<and> 7 \<notin> ignore_bodies (reset (projr (init (\<lambda>seed i. 0) [(7, None)] (1 / 4) NoBodies (BodySet {1}) True (PyFloat (- 1)))))
   \<and> 1 \<notin> ignore_bodies (reset (projr (init (\<lambda>seed i. 0) [(7, None)] (1 / 4) NoBodies (BodySet {1}) True (PyFloat (- 1)))))
   \<and> map_of (object_sound_map (reset (projr (init (\<lambda>seed i. 0) [(7, None)] (1 / 4) NoBodies (BodySet {1}) True (PyFloat (- 1)))))) 7 = Some None
   \<and> 1 \<in> tool_bodies (reset (projr (init (\<lambda>seed i. 0) [(7, None)] (1 / 4) NoBodies (BodySet {1}) True (PyFloat (- 1)))))
   \<and> fst (step (reset (projr (init (\<lambda>seed i. 0) [(7, None)] (1 / 4) NoBodies (BodySet {1}) True (PyFloat (- 1)))))
            ((), 0, False, None :: unit info option) 1700000000 [(7, 1)]) = Inl TypeError"
proof -
  let ?s = "reset (projr (init (\<lambda>seed i. 0) [(7, None)] (1 / 4) NoBodies (BodySet {1}) True (PyFloat (- 1))))"
  have en: "terminate_on_silent_touch ?s" by (simp add: reset_simps init_def)
  have pair: "(7, 1) \<in> set [(7 :: body, 1 :: body)]" by simp
  have ig: "7 \<notin> ignore_bodies ?s" "1 \<notin> ignore_bodies ?s" by (simp_all add: reset_simps init_def)
  have sides: "(7 :: body, 1 :: body) = (7, 1) \<or> (7 :: body, 1 :: body) = (1, 7)" by simp
  have lab: "map_of (object_sound_map ?s) 7 = Some None" by (simp add: reset_simps init_def)
  have tool: "1 \<in> tool_bodies ?s" by (simp add: reset_simps init_def)
  from C1_silent_touch_termination [OF en pair ig sides lab tool, of "()" 0 Map.empty 1700000000 None]
  have "fst (step ?s ((), 0, False, None :: unit info option) 1700000000 [(7, 1)]) = Inl TypeError"
    by blast
  with en ig lab tool show ?thesis by blast
qed

section \<open>Embeddings drawn by reset\<close>

lemma reset_embs_Some_length:
  assumes "(\<exists>v0. e k = Some v0 \<and> length v0 = d) \<or> (\<exists>l. (k, Some l) \<in> set m)"
  shows "\<exists>v. snd (reset_embs d m (g, e)) k = Some v \<and> length v = d"
  using assms
proof (induction m arbitrary: g e)
  case Nil
  then show ?case by simp
next
  case (Cons x m)
  obtain k' lbl where x: "x = (k', lbl)" by (cases x)
  show ?case
  proof (cases lbl)
    case None
    with Cons.prems x have "(\<exists>v0. e k = Some v0 \<and> length v0 = d) \<or> (\<exists>l. (k, Some l) \<in> set m)"
      by auto
    from Cons.IH[where e = e and g = g, OF this] show ?thesis using x None by simp
  next
    case (Some l')
    let ?v = "map (rng_stream g) [rng_pos g ..< rng_pos g + d]"
    let ?e = "e(k' \<mapsto> ?v)"
    have "(\<exists>v0. ?e k = Some v0 \<and> length v0 = d) \<or> (\<exists>l. (k, Some l) \<in> set m)"
      using Cons.prems x Some by auto
    then have ih: "\<exists>v. snd (reset_embs d m (g\<lparr>rng_pos := rng_pos g + d\<rparr>, ?e)) k = Some v \<and> length v = d"
      by (rule Cons.IH)
    have "reset_embs d (x # m) (g, e) = reset_embs d m (g\<lparr>rng_pos := rng_pos g + d\<rparr>, ?e)"
      using x Some by (simp add: rng_normal_def)
    then show ?thesis using ih by (simp only:)
  qed
qed

lemma reset_embs_None:
  assumes "e k = None" and "\<forall>l. (k, Some l) \<notin> set m"
  shows "snd (reset_embs d m (g, e)) k = None"
  using assms
proof (induction m arbitrary: g e)
  case Nil
  then show ?case by simp
next
  case (Cons x m)
  obtain k' lbl where x: "x = (k', lbl)" by (cases x)
  show ?case
  proof (cases lbl)
    case None
    with Cons x show ?thesis by simp
  next
    case (Some l')
    with Cons.prems x have "k' \<noteq> k" by auto
    with Cons x Some show ?thesis by (simp add: rng_normal_def)
  qed
qed

lemma audio_obj_emb_reset:
  "audio_obj_emb (reset s) = snd (reset_embs (emb_dim s) (object_sound_map s) (rng s, Map.empty))"
  by (simp add: reset_def split: prod.splits)

lemma rng_reset:
  "rng (reset s) = fst (reset_embs (emb_dim s) (object_sound_map s) (rng s, Map.empty))"
  by (simp add: reset_def split: prod.splits)

lemma reset_sounding:
  assumes "(k, Some l) \<in> set (object_sound_map s)"
  shows "\<exists>v. audio_obj_emb (reset s) k = Some v \<and> length v = emb_dim s"
  unfolding audio_obj_emb_reset
  by (rule reset_embs_Some_length) (use assms in blast)

lemma reset_not_sounding:
  assumes "\<forall>l. (k, Some l) \<notin> set (object_sound_map s)"
  shows "audio_obj_emb (reset s) k = None"
  unfolding audio_obj_emb_reset
  by (rule reset_embs_None) (use assms in simp_all)

lemma step_state:
  "snd (step s env_out now cps)
     = fst (step_contacts now cps (s\<lparr>step_count := step_count s + 1\<rparr>, False))"
  by (cases env_out) (simp add: step_def Let_def split: prod.splits option.splits)

lemma step_state_any_env:
  "snd (step s env_out now cps) = snd (step s env_out' now cps)"
  by (simp add: step_state)

lemma step_state_frame:
  "object_sound_map (snd (step s env_out now cps)) = object_sound_map s"
  "emb_dim (snd (step s env_out now cps)) = emb_dim s"
  "rng (snd (step s env_out now cps)) = rng s"
  "audio_obj_emb (snd (step s env_out now cps)) = audio_obj_emb s"
proof -
  let ?st0 = "(s\<lparr>step_count := step_count s + 1\<rparr>, False)"
  obtain s1 v1 where l: "step_contacts now cps ?st0 = (s1, v1)"
    by (cases "step_contacts now cps ?st0")
  have "snd (step s env_out now cps) = s1"
    using l by (simp add: step_state)
  with step_contacts_frame[OF l]
  show "object_sound_map (snd (step s env_out now cps)) = object_sound_map s"
    "emb_dim (snd (step s env_out now cps)) = emb_dim s"
    "rng (snd (step s env_out now cps)) = rng s"
    "audio_obj_emb (snd (step s env_out now cps)) = audio_obj_emb s"
    by simp_all
qed

lemma reachable_inv:
  assumes "reachable s"
  shows "distinct (map fst (object_sound_map s)) \<and> emb_dim s = 128 \<and>
    dom (audio_obj_emb s) \<subseteq> {k. \<exists>l. map_of (object_sound_map s) k = Some (Some l)}"
  using assms
proof (induction rule: reachable.induct)
  case (reachable_init osm bitgen cd ignore tool terminate penalty s)
  then show ?case by (auto simp: init_def split: sum.splits)
next
  case (reachable_reset s)
  then have d: "distinct (map fst (object_sound_map s))" and n: "emb_dim s = 128" by simp_all
  have "dom (audio_obj_emb (reset s)) \<subseteq> {k. \<exists>l. map_of (object_sound_map s) k = Some (Some l)}"
  proof
    fix k assume "k \<in> dom (audio_obj_emb (reset s))"
    have "\<exists>l. (k, Some l) \<in> set (object_sound_map s)"
    proof (rule ccontr)
      assume "\<not> (\<exists>l. (k, Some l) \<in> set (object_sound_map s))"
      then have "audio_obj_emb (reset s) k = None" by (intro reset_not_sounding) simp
      with \<open>k \<in> dom (audio_obj_emb (reset s))\<close> show False by auto
    qed
    then obtain l where "(k, Some l) \<in> set (object_sound_map s)" by blast
    with d have "map_of (object_sound_map s) k = Some (Some l)" by simp
    then show "k \<in> {k. \<exists>l. map_of (object_sound_map s) k = Some (Some l)}" by blast
  qed
  with d n show ?case by (simp only: reset_simps simp_thms)
next
  case (reachable_step s env_out now cps)
  then show ?case by (simp only: step_state_frame simp_thms)
qed

text \<open>
  C4. After a call to \<^verbatim>\<open>reset\<close> on a wrapper built from a dict, every object id with a
  sound label has an embedding, a vector of \<^verbatim>\<open>emb_dim\<close> entries, where \<^verbatim>\<open>emb_dim\<close> is 128
  (the constructor sets it and nothing changes it); every silent object id has no entry in
  the embedding map, and neither has an id outside the identity map. The embedding map
  holds one value per key, so an id with an embedding has exactly one.
\<close>

theorem C4_embeddings_after_reset:
  assumes "reachable s"
  shows "(map_of (object_sound_map s) k = Some (Some l) \<longrightarrow>
           (\<exists>v. audio_obj_emb (reset s) k = Some v \<and> length v = emb_dim (reset s)
                \<and> emb_dim (reset s) = 128))
       \<and> (map_of (object_sound_map s) k = Some None \<longrightarrow> audio_obj_emb (reset s) k = None)
       \<and> (map_of (object_sound_map s) k = None \<longrightarrow> audio_obj_emb (reset s) k = None)
       \<and> object_sound_map (reset s) = object_sound_map s"
proof -
  from reachable_inv[OF assms]
  have d: "distinct (map fst (object_sound_map s))" and n: "emb_dim s = 128" by simp_all
  have a: "\<exists>v. audio_obj_emb (reset s) k = Some v \<and> length v = emb_dim (reset s)
                \<and> emb_dim (reset s) = 128"
    if "map_of (object_sound_map s) k = Some (Some l)"
  proof -
    from that have "(k, Some l) \<in> set (object_sound_map s)" by (rule map_of_SomeD)
    from reset_sounding[OF this] n show ?thesis by (simp add: reset_simps)
  qed
  have b: "audio_obj_emb (reset s) k = None" if "map_of (object_sound_map s) k = Some None"
  proof (rule reset_not_sounding, intro allI notI)
    fix l' assume "(k, Some l') \<in> set (object_sound_map s)"
    with d have "map_of (object_sound_map s) k = Some (Some l')" by simp
    with that show False by simp
  qed
  have c: "audio_obj_emb (reset s) k = None" if "map_of (object_sound_map s) k = None"
  proof (rule reset_not_sounding, intro allI notI)
    fix l' assume "(k, Some l') \<in> set (object_sound_map s)"
    then have "k \<in> fst ` set (object_sound_map s)" by force
    with that show False by (simp add: map_of_eq_None_iff)
  qed
  from a b c show ?thesis by (simp add: reset_simps)
qed

theorem C4_embeddings_after_reset_witness:
  "reachable (projr (init (\<lambda>seed i. 0) [(5, Some ''tingting''), (7, None)] (1 / 4) NoBodies (BodySet {1}) False (PyFloat (- 1))))
   \<and> map_of (object_sound_map (projr (init (\<lambda>seed i. 0) [(5, Some ''tingting''), (7, None)] (1 / 4) NoBodies (BodySet {1}) False (PyFloat (- 1))))) 5
        = Some (Some ''tingting'')
   \<and> (\<exists>v. audio_obj_emb (reset (projr (init (\<lambda>seed i. 0) [(5, Some ''tingting''), (7, None)] (1 / 4) NoBodies (BodySet {1}) False (PyFloat (- 1))))) 5 = Some v
          \<and> length v = 128)
   \<and> map_of (object_sound_map (projr (init (\<lambda>seed i. 0) [(5, Some ''tingting''), (7, None)] (1 / 4) NoBodies (BodySet {1}) False (PyFloat (- 1))))) 7
        = Some None
   \<and> audio_obj_emb (reset (projr (init (\<lambda>seed i. 0) [(5, Some ''tingting''), (7, None)] (1 / 4) NoBodies (BodySet {1}) False (PyFloat (- 1))))) 7 = None
   \<and> map_of (object_sound_map (projr (init (\<lambda>seed i. 0) [(5, Some ''tingting''), (7, None)] (1 / 4) NoBodies (BodySet {1}) False (PyFloat (- 1))))) 9
        = None
   \<and> audio_obj_emb (reset (projr (init (\<lambda>seed i. 0) [(5, Some ''tingting''), (7, None)] (1 / 4) NoBodies (BodySet {1}) False (PyFloat (- 1))))) 9 = None"
proof -
  let ?w = "projr (init (\<lambda>seed i. 0) [(5, Some ''tingting''), (7, None)] (1 / 4) NoBodies (BodySet {1}) False (PyFloat (- 1)))"
  have r: "reachable ?w"
    by (rule reachable_init [of "[(5, Some ''tingting''), (7, None)]" "\<lambda>seed i. 0" "1 / 4" NoBodies "BodySet {1}" False "PyFloat (- 1)"])
       (simp_all add: init_def)
  have m5: "map_of (object_sound_map ?w) 5 = Some (Some ''tingting'')"
    and m7: "map_of (object_sound_map ?w) 7 = Some None"
    and m9: "map_of (object_sound_map ?w) 9 = None"
    by (simp_all add: init_def)
  from C4_embeddings_after_reset [OF r, of 5 "''tingting''"] m5
  have e5: "\<exists>v. audio_obj_emb (reset ?w) 5 = Some v \<and> length v = 128" by auto
  from C4_embeddings_after_reset [OF r, of 7 "''x''"] m7
  have e7: "audio_obj_emb (reset ?w) 7 = None" by blast
  from C4_embeddings_after_reset [OF r, of 9 "''x''"] m9
  have e9: "audio_obj_emb (reset ?w) 9 = None" by blast
  from r m5 e5 m7 e7 m9 e9 show ?thesis by blast
qed

section \<open>Construction accepts every configuration\<close>

text \<open>
  The claim C5 as written has the constructor reject an identity map that names a body of
  the ignore-set or of the tool-set. The constructor compares nothing: here body 5 is a
  tracked object, an ignored body and a tool body at once, and the wrapper is built.
\<close>

theorem C5_colliding_configuration_accepted_counterexample:
  "\<not> isl (init (\<lambda>seed i. 0) [(5, Some ''thud'')] (1 / 4) (BodySet {0, 5}) (BodySet {1, 5}) False (PyFloat (- 1)))
   \<and> map_of (object_sound_map (projr (init (\<lambda>seed i. 0) [(5, Some ''thud'')] (1 / 4) (BodySet {0, 5}) (BodySet {1, 5}) False (PyFloat (- 1))))) 5
        = Some (Some ''thud'')
   \<and> 5 \<in> ignore_bodies (projr (init (\<lambda>seed i. 0) [(5, Some ''thud'')] (1 / 4) (BodySet {0, 5}) (BodySet {1, 5}) False (PyFloat (- 1))))
   \<and> 5 \<in> tool_bodies (projr (init (\<lambda>seed i. 0) [(5, Some ''thud'')] (1 / 4) (BodySet {0, 5}) (BodySet {1, 5}) False (PyFloat (- 1))))"
  by (simp add: init_def)

text \<open>
  C5, as amended. The constructor does not compare the identity map with the ignore-set
  or the tool-set. Whether it raises does not depend on the identity map at all: it raises
  only when one of the two sets cannot be built or the penalty cannot be converted. When
  these conversions succeed, a configuration in which an object id of the map is also in
  the ignore-set or in the tool-set is accepted like any other, and the wrapper holds the
  map and the two sets as given.
\<close>

theorem C5_identity_map_not_compared:
  "(\<forall>e. init bitgen osm cd ignore tool terminate penalty = Inl e
         \<longleftrightarrow> init bitgen osm' cd ignore tool terminate penalty = Inl e)
   \<and> (\<forall>e. init bitgen osm cd ignore tool terminate penalty = Inl e
         \<longrightarrow> py_set_or_empty ignore = Inl e \<or> py_set_or_empty tool = Inl e
             \<or> py_float penalty = Inl e)
   \<and> (py_set_or_empty ignore = Inr ignore_set \<and> py_set_or_empty tool = Inr tool_set
         \<and> py_float penalty = Inr pen
       \<longrightarrow> (\<exists>w. init bitgen osm cd ignore tool terminate penalty = Inr w
                \<and> object_sound_map w = osm \<and> ignore_bodies w = ignore_set
                \<and> tool_bodies w = tool_set))"
  by (auto simp: init_def split: sum.splits)

theorem C5_identity_map_not_compared_witness:
  "py_set_or_empty (BodySet {0, 5}) = Inr {0, 5}
   \<and> py_set_or_empty (BodySet {1, 5}) = Inr {1, 5}
   \<and> py_float (PyFloat (- 1)) = Inr (- 1)
   \<and> (\<exists>w. init (\<lambda>seed i. 0) [(5, Some ''thud'')] (1 / 4) (BodySet {0, 5}) (BodySet {1, 5}) False (PyFloat (- 1)) = Inr w
          \<and> object_sound_map w = [(5, Some ''thud'')] \<and> ignore_bodies w = {0, 5} \<and> tool_bodies w = {1, 5})
   \<and> init (\<lambda>seed i. 0) [(5, Some ''thud'')] (1 / 4) NotIterable (BodySet {1, 5}) False (PyFloat (- 1)) = Inl TypeError
   \<and> init (\<lambda>seed i. 0) [] (1 / 4) NotIterable (BodySet {1, 5}) False (PyFloat (- 1)) = Inl TypeError"
proof -
  have h: "py_set_or_empty (BodySet {0, 5}) = Inr {0, 5}
      \<and> py_set_or_empty (BodySet {1, 5}) = Inr {1, 5} \<and> py_float (PyFloat (- 1)) = Inr (- 1)"
    by simp
  have e: "init (\<lambda>seed i. 0) [(5, Some ''thud'')] (1 / 4) NotIterable (BodySet {1, 5}) False (PyFloat (- 1))
      = Inl TypeError"
    by (simp add: init_def)
  from C5_identity_map_not_compared [of "\<lambda>seed i. 0" "[(5, Some ''thud'')]" "1 / 4" "BodySet {0, 5}"
      "BodySet {1, 5}" False "PyFloat (- 1)" "[]" "{0, 5}" "{1, 5}" "- 1"] h
  have a: "\<exists>w. init (\<lambda>seed i. 0) [(5, Some ''thud'')] (1 / 4) (BodySet {0, 5}) (BodySet {1, 5}) False (PyFloat (- 1)) = Inr w
          \<and> object_sound_map w = [(5, Some ''thud'')] \<and> ignore_bodies w = {0, 5} \<and> tool_bodies w = {1, 5}"
    by blast
  from C5_identity_map_not_compared [of "\<lambda>seed i. 0" "[(5, Some ''thud'')]" "1 / 4" NotIterable
      "BodySet {1, 5}" False "PyFloat (- 1)" "[]"] e
  have b: "init (\<lambda>seed i. 0) [] (1 / 4) NotIterable (BodySet {1, 5}) False (PyFloat (- 1)) = Inl TypeError"
    by blast
  from h a e b show ?thesis by blast
qed

section \<open>What step adds to the simulator's tuple\<close>

lemma step_hit_flag:
  "snd (step_hit now h o' (s, v))
     = (v \<or> (map_of (object_sound_map s) h = Some None \<and> o' \<in> tool_bodies s))"
  by (auto simp: step_hit_def Let_def split: option.splits)

lemma step_contact_flag:
  "snd (step_contact now (a, b) (s, v))
     = (v \<or> (a \<notin> ignore_bodies s \<and> b \<notin> ignore_bodies s \<and>
              (map_of (object_sound_map s) a = Some None \<and> b \<in> tool_bodies s
               \<or> map_of (object_sound_map s) b = Some None \<and> a \<in> tool_bodies s)))"
proof -
  obtain s1 v1 where h1: "step_hit now a b (s, v) = (s1, v1)"
    by (cases "step_hit now a b (s, v)")
  from step_hit_flag[of now a b s v] h1
  have v1: "v1 = (v \<or> (map_of (object_sound_map s) a = Some None \<and> b \<in> tool_bodies s))"
    by simp
  note f = step_hit_frame[OF h1]
  from step_hit_flag[of now b a s1 v1] f
  have "snd (step_hit now b a (s1, v1))
      = (v1 \<or> (map_of (object_sound_map s) b = Some None \<and> a \<in> tool_bodies s))"
    by simp
  with h1 v1 show ?thesis by (auto simp: step_contact_def)
qed

lemma step_contacts_flag:
  "snd (step_contacts now cps (s, v))
     = (v \<or> (\<exists>(a, b)\<in>set cps. a \<notin> ignore_bodies s \<and> b \<notin> ignore_bodies s \<and>
              (map_of (object_sound_map s) a = Some None \<and> b \<in> tool_bodies s
               \<or> map_of (object_sound_map s) b = Some None \<and> a \<in> tool_bodies s)))"
proof (induction cps arbitrary: s v)
  case Nil
  then show ?case by (simp add: step_contacts_def)
next
  case (Cons cp cps)
  obtain a b where cp: "cp = (a, b)" by (cases cp)
  obtain s1 v1 where c: "step_contact now (a, b) (s, v) = (s1, v1)"
    by (cases "step_contact now (a, b) (s, v)")
  from step_contact_flag[of now a b s v] c
  have v1: "v1 = (v \<or> (a \<notin> ignore_bodies s \<and> b \<notin> ignore_bodies s \<and>
              (map_of (object_sound_map s) a = Some None \<and> b \<in> tool_bodies s
               \<or> map_of (object_sound_map s) b = Some None \<and> a \<in> tool_bodies s)))"
    by simp
  note f = step_contact_frame[OF c]
  have "snd (step_contacts now (cp # cps) (s, v)) = snd (step_contacts now cps (s1, v1))"
    using cp c by (simp add: step_contacts_Cons)
  also have "\<dots> = (v1 \<or> (\<exists>(a, b)\<in>set cps. a \<notin> ignore_bodies s \<and> b \<notin> ignore_bodies s \<and>
              (map_of (object_sound_map s) a = Some None \<and> b \<in> tool_bodies s
               \<or> map_of (object_sound_map s) b = Some None \<and> a \<in> tool_bodies s)))"
    using Cons.IH[of s1 v1] f by simp
  finally show ?case using v1 cp by auto
qed

text \<open>
  C6. When \<^verbatim>\<open>step\<close> returns, the observation is the simulator's; the returned
  \<^verbatim>\<open>info\<close> holds the event list of the episode so far under \<^verbatim>\<open>audio_events\<close>, the
  identity map under \<^verbatim>\<open>audio_identity\<close>, the embedding map under \<^verbatim>\<open>audio_obj_emb\<close>
  (its keys are object ids with a sound label) and the dimensionality under
  \<^verbatim>\<open>audio_emb_dim\<close>. The violation policy forces termination exactly when termination
  on silent touch is enabled, the simulator did not report done, and some contact pair of
  the step without ignored body has a silent tracked object on one side and a tool body on
  the other. When it does, done is true, the reward is the penalty and
  \<^verbatim>\<open>terminated_reason\<close> holds the reason; when it does not, that key holds what the
  simulator's \<^verbatim>\<open>info\<close> held under it (nothing, if nothing) and reward and done are the
  simulator's. Every other key holds what the simulator's \<^verbatim>\<open>info\<close> held, an absent
  \<^verbatim>\<open>info\<close> counting as the empty dict.
\<close>

theorem C6_step_augments_info_only:
  assumes r: "reachable s"
    and st: "step s (obs, reward, dn, info) now cps = (Inr (obs', reward', dn', info'), s')"
    and i0: "info0 = (case info of None \<Rightarrow> Map.empty | Some d \<Rightarrow> d)"
    and fo: "forced = (terminate_on_silent_touch s \<and> \<not> dn \<and>
               (\<exists>(a, b)\<in>set cps. a \<notin> ignore_bodies s \<and> b \<notin> ignore_bodies s \<and>
                  (map_of (object_sound_map s) a = Some None \<and> b \<in> tool_bodies s
                   \<or> map_of (object_sound_map s) b = Some None \<and> a \<in> tool_bodies s)))"
  shows "obs' = obs
    \<and> info' ''audio_events'' = Some (AudioEvents (audio_events s'))
    \<and> info' ''audio_identity'' = Some (AudioIdentity (object_sound_map s))
    \<and> info' ''audio_obj_emb'' = Some (AudioObjEmb (audio_obj_emb s))
    \<and> dom (audio_obj_emb s) \<subseteq> {k. \<exists>l. map_of (object_sound_map s) k = Some (Some l)}
    \<and> info' ''audio_emb_dim'' = Some (AudioEmbDim (emb_dim s))
    \<and> (forced \<longrightarrow>
         info' ''terminated_reason'' = Some (StrVal ''touched_silent_object_with_tool'')
         \<and> reward' = silent_penalty s \<and> dn')
    \<and> (\<not> forced \<longrightarrow>
         info' ''terminated_reason'' = info0 ''terminated_reason'' \<and> reward' = reward \<and> dn' = dn)
    \<and> (dn' \<and> \<not> dn \<longrightarrow> forced)
    \<and> (\<forall>key. key \<notin> {''audio_events'', ''audio_identity'', ''audio_obj_emb'', ''audio_emb_dim'',
                       ''terminated_reason''} \<longrightarrow> info' key = info0 key)"
proof -
  let ?st0 = "(s\<lparr>step_count := step_count s + 1\<rparr>, False)"
  obtain s1 v1 where l: "step_contacts now cps ?st0 = (s1, v1)"
    by (cases "step_contacts now cps ?st0")
  note f = step_contacts_frame[OF l]
  from st l have s': "s' = s1"
    by (auto simp: step_def Let_def split: if_splits option.splits)
  have inv: "dom (audio_obj_emb s) \<subseteq> {k. \<exists>l. map_of (object_sound_map s) k = Some (Some l)}"
    using reachable_inv[OF r] by blast
  from step_contacts_flag[of now cps "s\<lparr>step_count := step_count s + 1\<rparr>" False] l
  have v1: "v1 = (\<exists>(a, b)\<in>set cps. a \<notin> ignore_bodies s \<and> b \<notin> ignore_bodies s \<and>
                  (map_of (object_sound_map s) a = Some None \<and> b \<in> tool_bodies s
                   \<or> map_of (object_sound_map s) b = Some None \<and> a \<in> tool_bodies s))"
    by simp
  have forced: "forced = (terminate_on_silent_touch s1 \<and> v1 \<and> \<not> dn)"
    unfolding fo v1 using f by auto
  show ?thesis
  proof (cases forced)
    case True
    with forced have c: "terminate_on_silent_touch s1 \<and> v1 \<and> \<not> dn" by simp
    with st l obtain d where d: "info = Some d"
      by (cases info) (auto simp: step_def Let_def)
    from st l c d have eq: "obs' = obs" "dn'" "\<not> dn" "reward' = silent_penalty s1"
      "info' = d(''terminated_reason'' \<mapsto> StrVal ''touched_silent_object_with_tool'',
                 ''audio_events'' \<mapsto> AudioEvents (audio_events s1),
                 ''audio_identity'' \<mapsto> AudioIdentity (object_sound_map s1),
                 ''audio_obj_emb'' \<mapsto> AudioObjEmb (audio_obj_emb s1),
                 ''audio_emb_dim'' \<mapsto> AudioEmbDim (emb_dim s1))"
      by (auto simp: step_def)
    have "info0 = d" using i0 d by simp
    with eq s' f inv True show ?thesis by simp
  next
    case False
    with forced have c: "\<not> (terminate_on_silent_touch s1 \<and> v1 \<and> \<not> dn)" by simp
    from st l c have eq: "obs' = obs" "reward' = reward" "dn' = dn"
      "info' = info0(''audio_events'' \<mapsto> AudioEvents (audio_events s1),
                 ''audio_identity'' \<mapsto> AudioIdentity (object_sound_map s1),
                 ''audio_obj_emb'' \<mapsto> AudioObjEmb (audio_obj_emb s1),
                 ''audio_emb_dim'' \<mapsto> AudioEmbDim (emb_dim s1))"
      unfolding i0 by (auto simp: step_def)
    with s' f inv False show ?thesis by simp
  qed
qed

theorem C6_step_augments_info_only_witness:
  "reachable (reset (projr (init (\<lambda>seed i. 0) [(5, Some ''tingting''), (7, None)] (1 / 4) (BodySet {0}) (BodySet {1}) True (PyFloat (- 1)))))
   \<and> \<not> isl (fst (step (reset (projr (init (\<lambda>seed i. 0) [(5, Some ''tingting''), (7, None)] (1 / 4) (BodySet {0}) (BodySet {1}) True (PyFloat (- 1)))))
            (True, 0, False, Some [''success'' \<mapsto> EnvVal False]) 1700000000 [(7, 1), (5, 1)]))
   \<and> fst (projr (fst (step (reset (projr (init (\<lambda>seed i. 0) [(5, Some ''tingting''), (7, None)] (1 / 4) (BodySet {0}) (BodySet {1}) True (PyFloat (- 1)))))
            (True, 0, False, Some [''success'' \<mapsto> EnvVal False]) 1700000000 [(7, 1), (5, 1)]))) = True
   \<and> fst (snd (projr (fst (step (reset (projr (init (\<lambda>seed i. 0) [(5, Some ''tingting''), (7, None)] (1 / 4) (BodySet {0}) (BodySet {1}) True (PyFloat (- 1)))))
            (True, 0, False, Some [''success'' \<mapsto> EnvVal False]) 1700000000 [(7, 1), (5, 1)])))) = - 1
   \<and> snd (snd (snd (projr (fst (step (reset (projr (init (\<lambda>seed i. 0) [(5, Some ''tingting''), (7, None)] (1 / 4) (BodySet {0}) (BodySet {1}) True (PyFloat (- 1)))))
            (True, 0, False, Some [''success'' \<mapsto> EnvVal False]) 1700000000 [(7, 1), (5, 1)]))))) ''success'' = Some (EnvVal False)
   \<and> snd (snd (snd (projr (fst (step (reset (projr (init (\<lambda>seed i. 0) [(5, Some ''tingting''), (7, None)] (1 / 4) (BodySet {0}) (BodySet {1}) True (PyFloat (- 1)))))
            (True, 0, False, Some [''success'' \<mapsto> EnvVal False]) 1700000000 [(7, 1), (5, 1)]))))) ''audio_emb_dim'' = Some (AudioEmbDim 128)
   \<and> snd (snd (snd (projr (fst (step (reset (projr (init (\<lambda>seed i. 0) [(5, Some ''tingting''), (7, None)] (1 / 4) (BodySet {0}) (BodySet {1}) True (PyFloat (- 1)))))
            (True, 0, False, Some [''success'' \<mapsto> EnvVal False]) 1700000000 [(7, 1), (5, 1)]))))) ''terminated_reason''
        = Some (StrVal ''touched_silent_object_with_tool'')
   \<and> snd (snd (snd (projr (fst (step (reset (projr (init (\<lambda>seed i. 0) [(5, Some ''tingting''), (7, None)] (1 / 4) (BodySet {0}) (BodySet {1}) True (PyFloat (- 1)))))
            (True, 0, False, Some [''success'' \<mapsto> EnvVal False]) 1700000000 [(5, 1)]))))) ''terminated_reason''
        = None"
proof -
  let ?w = "projr (init (\<lambda>seed i. 0) [(5, Some ''tingting''), (7, None)] (1 / 4) (BodySet {0}) (BodySet {1}) True (PyFloat (- 1)))"
  let ?info = "Some [''success'' \<mapsto> EnvVal False]"
  let ?r = "step (reset ?w) (True, 0, False, ?info) 1700000000 [(7, 1), (5, 1)]"
  let ?p = "projr (fst ?r)"
  let ?r2 = "step (reset ?w) (True, 0, False, ?info) 1700000000 [(5, 1)]"
  let ?p2 = "projr (fst ?r2)"
  have "reachable ?w"
    by (rule reachable_init [of "[(5, Some ''tingting''), (7, None)]" "\<lambda>seed i. 0" "1 / 4" "BodySet {0}" "BodySet {1}" True "PyFloat (- 1)"])
       (simp_all add: init_def)
  then have r: "reachable (reset ?w)" by (rule reachable_reset)
  have ok: "\<not> isl (fst ?r)"
    by (simp add: step_def step_contacts_def step_contact_def step_hit_def reset_simps init_def)
  have ok2: "\<not> isl (fst ?r2)"
    by (simp add: step_def step_contacts_def step_contact_def step_hit_def reset_simps init_def)
  have st: "?r = (Inr (fst ?p, fst (snd ?p), fst (snd (snd ?p)), snd (snd (snd ?p))), snd ?r)"
    using ok by (simp add: prod_eq_iff)
  have st2: "?r2 = (Inr (fst ?p2, fst (snd ?p2), fst (snd (snd ?p2)), snd (snd (snd ?p2))), snd ?r2)"
    using ok2 by (simp add: prod_eq_iff)
  have i0: "[''success'' \<mapsto> EnvVal False] = (case ?info of None \<Rightarrow> Map.empty | Some d \<Rightarrow> d)"
    by simp
  have fo: "True = (terminate_on_silent_touch (reset ?w) \<and> \<not> False \<and>
               (\<exists>(a, b)\<in>set [(7, 1), (5, 1)]. a \<notin> ignore_bodies (reset ?w) \<and> b \<notin> ignore_bodies (reset ?w) \<and>
                  (map_of (object_sound_map (reset ?w)) a = Some None \<and> b \<in> tool_bodies (reset ?w)
                   \<or> map_of (object_sound_map (reset ?w)) b = Some None \<and> a \<in> tool_bodies (reset ?w))))"
    by (simp add: reset_simps init_def)
  have fo2: "False = (terminate_on_silent_touch (reset ?w) \<and> \<not> False \<and>
               (\<exists>(a, b)\<in>set [(5, 1)]. a \<notin> ignore_bodies (reset ?w) \<and> b \<notin> ignore_bodies (reset ?w) \<and>
                  (map_of (object_sound_map (reset ?w)) a = Some None \<and> b \<in> tool_bodies (reset ?w)
                   \<or> map_of (object_sound_map (reset ?w)) b = Some None \<and> a \<in> tool_bodies (reset ?w))))"
    by (simp add: reset_simps init_def)
  have dim: "emb_dim (reset ?w) = 128" "silent_penalty (reset ?w) = - 1"
    by (simp_all add: reset_simps init_def)
  from C6_step_augments_info_only [OF r st i0 fo] dim
  have a: "fst ?p = True \<and> fst (snd ?p) = - 1 \<and> snd (snd (snd ?p)) ''success'' = Some (EnvVal False)
      \<and> snd (snd (snd ?p)) ''audio_emb_dim'' = Some (AudioEmbDim 128)
      \<and> snd (snd (snd ?p)) ''terminated_reason'' = Some (StrVal ''touched_silent_object_with_tool'')"
    by simp
  from C6_step_augments_info_only [OF r st2 i0 fo2]
  have b: "snd (snd (snd ?p2)) ''terminated_reason'' = None"
    by simp
  from r ok a b show ?thesis by blast
qed

section \<open>The generator across resets and runs\<close>

lemma reset_embs_rng:
  "rng_stream (fst (reset_embs d m (g, e))) = rng_stream g \<and>
   rng_pos (fst (reset_embs d m (g, e))) = rng_pos g + d * length (filter (\<lambda>x. snd x \<noteq> None) m)"
proof (induction m arbitrary: g e)
  case Nil
  then show ?case by simp
next
  case (Cons x m)
  obtain k' lbl where x: "x = (k', lbl)" by (cases x)
  show ?case
  proof (cases lbl)
    case None
    with Cons.IH[of g e] x show ?thesis by simp
  next
    case (Some l')
    with x show ?thesis by (simp add: rng_normal_def Cons.IH algebra_simps)
  qed
qed

lemma rng_reset_pos:
  "rng_stream (rng (reset s)) = rng_stream (rng s)"
  "rng_pos (rng (reset s))
     = rng_pos (rng s) + emb_dim s * length (filter (\<lambda>x. snd x \<noteq> None) (object_sound_map s))"
  using reset_embs_rng[of "emb_dim s" "object_sound_map s" "rng s" Map.empty]
  by (simp_all add: rng_reset)

lemma run_frame:
  "object_sound_map (run s calls) = object_sound_map s \<and> emb_dim (run s calls) = emb_dim s \<and>
   rng_stream (rng (run s calls)) = rng_stream (rng s) \<and>
   rng_pos (rng (run s calls))
     = rng_pos (rng s) + emb_dim s * length (filter (\<lambda>x. snd x \<noteq> None) (object_sound_map s))
         * length (filter is_Reset calls)"
proof (induction calls arbitrary: s)
  case Nil
  then show ?case by simp
next
  case (Cons c calls)
  show ?case
  proof (cases c)
    case Reset
    with Cons.IH[of "reset s"] show ?thesis
      by (simp add: reset_simps rng_reset_pos algebra_simps)
  next
    case (Step env_out now cps)
    with Cons.IH[of "snd (step s env_out now cps)"] show ?thesis
      by (simp add: step_state_frame)
  qed
qed

lemma reset_view:
  assumes "object_sound_map s1 = object_sound_map s2" "emb_dim s1 = emb_dim s2" "rng s1 = rng s2"
  shows "rng (reset s1) = rng (reset s2)" "audio_obj_emb (reset s1) = audio_obj_emb (reset s2)"
  using assms by (simp_all add: rng_reset audio_obj_emb_reset)

lemma run_reproducible:
  assumes "object_sound_map s1 = object_sound_map s2" "emb_dim s1 = emb_dim s2"
    and "rng s1 = rng s2" "audio_obj_emb s1 = audio_obj_emb s2"
    and "map is_Reset calls1 = map is_Reset calls2"
  shows "audio_obj_emb (run s1 calls1) = audio_obj_emb (run s2 calls2)"
  using assms
proof (induction calls1 arbitrary: calls2 s1 s2)
  case Nil
  then show ?case by simp
next
  case (Cons c calls1)
  from Cons.prems(5) obtain c' calls2' where c2: "calls2 = c' # calls2'"
    "is_Reset c = is_Reset c'" "map is_Reset calls1 = map is_Reset calls2'"
    by (cases calls2) auto
  show ?case
  proof (cases c)
    case Reset
    with c2(2) have c': "c' = Reset" by (cases c') simp_all
    have "audio_obj_emb (run (reset s1) calls1) = audio_obj_emb (run (reset s2) calls2')"
      by (rule Cons.IH)
         (use Cons.prems c2(3) reset_view[of s1 s2] in \<open>simp_all add: reset_simps\<close>)
    with Reset c' c2(1) show ?thesis by simp
  next
    case (Step env_out now cps)
    with c2(2) obtain env_out' now' cps' where c': "c' = Step env_out' now' cps'"
      by (cases c') simp_all
    have "audio_obj_emb (run (snd (step s1 env_out now cps)) calls1)
        = audio_obj_emb (run (snd (step s2 env_out' now' cps')) calls2')"
      by (rule Cons.IH) (use Cons.prems c2(3) in \<open>simp_all add: step_state_frame\<close>)
    with Step c' c2(1) show ?thesis by simp
  qed
qed

lemma reset_embs_shift:
  assumes "rng_stream g1 = f" "rng_stream g2 = f" "rng_pos g2 = rng_pos g1 + c" "lo \<le> rng_pos g1"
    and "\<forall>k. (e1 k = None \<and> e2 k = None) \<or>
           (\<exists>q\<ge>lo. q + d \<le> rng_pos g1 \<and> e1 k = Some (map f [q ..< q + d])
               \<and> e2 k = Some (map f [q + c ..< q + c + d]))"
  shows "\<forall>k. (snd (reset_embs d m (g1, e1)) k = None \<and> snd (reset_embs d m (g2, e2)) k = None) \<or>
           (\<exists>q\<ge>lo. q + d \<le> rng_pos g1 + d * length (filter (\<lambda>x. snd x \<noteq> None) m)
               \<and> snd (reset_embs d m (g1, e1)) k = Some (map f [q ..< q + d])
               \<and> snd (reset_embs d m (g2, e2)) k = Some (map f [q + c ..< q + c + d]))"
  using assms
proof (induction m arbitrary: g1 g2 e1 e2)
  case Nil
  then show ?case by simp
next
  case (Cons x m)
  obtain k' lbl where x: "x = (k', lbl)" by (cases x)
  show ?case
  proof (cases lbl)
    case None
    with Cons.IH[OF Cons.prems] x show ?thesis by simp
  next
    case (Some l')
    let ?p = "rng_pos g1"
    let ?g1 = "g1\<lparr>rng_pos := ?p + d\<rparr>" and ?g2 = "g2\<lparr>rng_pos := rng_pos g2 + d\<rparr>"
    let ?e1 = "e1(k' \<mapsto> map f [?p ..< ?p + d])"
    let ?e2 = "e2(k' \<mapsto> map f [?p + c ..< ?p + c + d])"
    have r1: "reset_embs d (x # m) (g1, e1) = reset_embs d m (?g1, ?e1)"
      using x Some Cons.prems(1) by (simp add: rng_normal_def)
    have r2: "reset_embs d (x # m) (g2, e2) = reset_embs d m (?g2, ?e2)"
      using x Some Cons.prems(2,3) by (simp add: rng_normal_def)
    have inv: "\<forall>k. (?e1 k = None \<and> ?e2 k = None) \<or>
           (\<exists>q\<ge>lo. q + d \<le> rng_pos ?g1 \<and> ?e1 k = Some (map f [q ..< q + d])
               \<and> ?e2 k = Some (map f [q + c ..< q + c + d]))"
    proof
      fix k
      show "(?e1 k = None \<and> ?e2 k = None) \<or>
           (\<exists>q\<ge>lo. q + d \<le> rng_pos ?g1 \<and> ?e1 k = Some (map f [q ..< q + d])
               \<and> ?e2 k = Some (map f [q + c ..< q + c + d]))"
      proof (cases "k = k'")
        case True
        with Cons.prems(4) show ?thesis by auto
      next
        case False
        from Cons.prems(5) have "(e1 k = None \<and> e2 k = None) \<or>
           (\<exists>q\<ge>lo. q + d \<le> rng_pos g1 \<and> e1 k = Some (map f [q ..< q + d])
               \<and> e2 k = Some (map f [q + c ..< q + c + d]))" by blast
        with False show ?thesis by auto
      qed
    qed
    have "\<forall>k. (snd (reset_embs d m (?g1, ?e1)) k = None \<and> snd (reset_embs d m (?g2, ?e2)) k = None) \<or>
           (\<exists>q\<ge>lo. q + d \<le> rng_pos ?g1 + d * length (filter (\<lambda>x. snd x \<noteq> None) m)
               \<and> snd (reset_embs d m (?g1, ?e1)) k = Some (map f [q ..< q + d])
               \<and> snd (reset_embs d m (?g2, ?e2)) k = Some (map f [q + c ..< q + c + d]))"
      by (rule Cons.IH[OF _ _ _ _ inv]) (use Cons.prems in simp_all)
    then show ?thesis unfolding r1 r2 using x Some by (simp add: algebra_simps)
  qed
qed

lemma consecutive_resets_differ:
  assumes k: "(k, Some l) \<in> set (object_sound_map s)"
    and d: "0 < emb_dim s"
    and n: "n = length (filter (\<lambda>x. snd x \<noteq> None) (object_sound_map s))"
    and inj: "inj_on (rng_stream (rng s)) {rng_pos (rng s) ..< rng_pos (rng s) + 2 * (emb_dim s * n)}"
  shows "audio_obj_emb (reset s) k \<noteq> audio_obj_emb (reset (reset s)) k"
proof -
  let ?d = "emb_dim s" and ?m = "object_sound_map s" and ?p = "rng_pos (rng s)"
  let ?f = "rng_stream (rng s)" and ?c = "emb_dim s * n"
  have e1: "audio_obj_emb (reset s) = snd (reset_embs ?d ?m (rng s, Map.empty))"
    by (rule audio_obj_emb_reset)
  have e2: "audio_obj_emb (reset (reset s)) = snd (reset_embs ?d ?m (rng (reset s), Map.empty))"
    by (simp add: audio_obj_emb_reset reset_simps)
  have sh: "\<forall>k. (snd (reset_embs ?d ?m (rng s, Map.empty)) k = None
              \<and> snd (reset_embs ?d ?m (rng (reset s), Map.empty)) k = None) \<or>
           (\<exists>q\<ge>?p. q + ?d \<le> ?p + ?d * length (filter (\<lambda>x. snd x \<noteq> None) ?m)
               \<and> snd (reset_embs ?d ?m (rng s, Map.empty)) k = Some (map ?f [q ..< q + ?d])
               \<and> snd (reset_embs ?d ?m (rng (reset s), Map.empty)) k
                    = Some (map ?f [q + ?c ..< q + ?c + ?d]))"
    by (rule reset_embs_shift) (simp_all add: rng_reset_pos n)
  from reset_sounding[OF k] have "audio_obj_emb (reset s) k \<noteq> None" by auto
  with sh e1 e2 n obtain q where q: "?p \<le> q" "q + ?d \<le> ?p + ?c"
    "audio_obj_emb (reset s) k = Some (map ?f [q ..< q + ?d])"
    "audio_obj_emb (reset (reset s)) k = Some (map ?f [q + ?c ..< q + ?c + ?d])"
    by (metis (no_types, lifting))
  from k have "filter (\<lambda>x. snd x \<noteq> None) ?m \<noteq> []"
    by (force simp: filter_empty_conv)
  with n d have c: "0 < ?c" by simp
  show ?thesis
  proof
    assume "audio_obj_emb (reset s) k = audio_obj_emb (reset (reset s)) k"
    with q have "map ?f [q ..< q + ?d] = map ?f [q + ?c ..< q + ?c + ?d]" by simp
    then have "hd (map ?f [q ..< q + ?d]) = hd (map ?f [q + ?c ..< q + ?c + ?d])" by simp
    with d have "?f q = ?f (q + ?c)" by (simp add: upt_conv_Cons)
    moreover have "q < ?p + ?c" using q(2) d by linarith
    then have "q \<in> {?p ..< ?p + 2 * ?c}" "q + ?c \<in> {?p ..< ?p + 2 * ?c}"
      unfolding atLeastLessThan_iff using q(1) by linarith+
    ultimately have "q = q + ?c" using inj by (auto dest: inj_onD)
    with c show False by simp
  qed
qed

text \<open>
  C8. The generator is seeded in the constructor only. Along any run of calls it keeps the
  sample sequence of seed 42, and its position is the number of samples the resets so far
  have drawn (128 for each sound-labelled object and reset): no call puts it back. So two
  runs from wrappers built on the same identity map that make the same sequence of
  \<^verbatim>\<open>reset\<close> and \<^verbatim>\<open>step\<close> calls hold the same embeddings, whatever the rest of the
  configuration and whatever the simulator, the clock and the contact query answer in
  either run. And two consecutive resets draw the embedding of every sound-labelled
  object from different places of the sequence: the two embeddings differ as long as the
  generator does not repeat a sample among those the two resets draw.
\<close>

theorem C8_generator_seeded_once:
  assumes i1: "init bitgen osm cd1 ig1 tl1 tm1 pen1 = Inr w1"
    and i2: "init bitgen osm cd2 ig2 tl2 tm2 pen2 = Inr w2"
    and shape: "map is_Reset calls1 = map is_Reset calls2"
    and n: "n = length (filter (\<lambda>x. snd x \<noteq> None) osm)"
    and r: "r = length (filter is_Reset calls1)"
  shows "rng_stream (rng (run w1 calls1)) = bitgen 42
       \<and> rng_pos (rng (run w1 calls1)) = 128 * n * r
       \<and> audio_obj_emb (run w1 calls1) = audio_obj_emb (run w2 calls2)
       \<and> (\<forall>k l. (k, Some l) \<in> set osm
                \<and> inj_on (bitgen 42) {128 * n * r ..< 128 * n * r + 256 * n}
             \<longrightarrow> audio_obj_emb (reset (run w1 calls1)) k
                   \<noteq> audio_obj_emb (reset (reset (run w1 calls1))) k)"
proof -
  from i1 have w1: "object_sound_map w1 = osm" "emb_dim w1 = 128"
    "rng w1 = default_rng bitgen 42" "audio_obj_emb w1 = Map.empty"
    by (auto simp: init_def split: sum.splits)
  from i2 have w2: "object_sound_map w2 = osm" "emb_dim w2 = 128"
    "rng w2 = default_rng bitgen 42" "audio_obj_emb w2 = Map.empty"
    by (auto simp: init_def split: sum.splits)
  let ?s = "run w1 calls1"
  from run_frame[of w1 calls1] w1 n r
  have f: "object_sound_map ?s = osm" "emb_dim ?s = 128" "rng_stream (rng ?s) = bitgen 42"
    "rng_pos (rng ?s) = 128 * n * r"
    by (simp_all add: default_rng_def)
  have rep: "audio_obj_emb (run w1 calls1) = audio_obj_emb (run w2 calls2)"
    by (rule run_reproducible) (simp_all add: w1 w2 shape)
  have diff: "audio_obj_emb (reset ?s) k \<noteq> audio_obj_emb (reset (reset ?s)) k"
    if "(k, Some l) \<in> set osm" "inj_on (bitgen 42) {128 * n * r ..< 128 * n * r + 256 * n}"
    for k l
    by (rule consecutive_resets_differ[where l = l and n = n])
       (use that f n in simp_all)
  from f rep diff show ?thesis by blast
qed

theorem C8_generator_seeded_once_witness:
  "rng_pos (rng (run (projr (init (\<lambda>seed i. real (seed + i)) [(5, Some ''tingting''), (7, None)] (1 / 4) NoBodies (BodySet {1}) False (PyFloat (- 1))))
       [Reset, Step ((), 0, False, None :: unit info option) 1700000000 [(5, 1)]])) = 128
   \<and> audio_obj_emb (run (projr (init (\<lambda>seed i. real (seed + i)) [(5, Some ''tingting''), (7, None)] (1 / 4) NoBodies (BodySet {1}) False (PyFloat (- 1))))
       [Reset, Step ((), 0, False, None :: unit info option) 1700000000 [(5, 1)]])
     = audio_obj_emb (run (projr (init (\<lambda>seed i. real (seed + i)) [(5, Some ''tingting''), (7, None)] 2 (BodySet {0}) NoBodies True (PyFloat (- 5))))
       [Reset, Step (True, 3, True, Some (Map.empty :: unit info)) 1700000009 [(7, 1), (5, 5)]])
   \<and> audio_obj_emb (reset (run (projr (init (\<lambda>seed i. real (seed + i)) [(5, Some ''tingting''), (7, None)] (1 / 4) NoBodies (BodySet {1}) False (PyFloat (- 1))))
       [Reset, Step ((), 0, False, None :: unit info option) 1700000000 [(5, 1)]])) 5
     \<noteq> audio_obj_emb (reset (reset (run (projr (init (\<lambda>seed i. real (seed + i)) [(5, Some ''tingting''), (7, None)] (1 / 4) NoBodies (BodySet {1}) False (PyFloat (- 1))))
       [Reset, Step ((), 0, False, None :: unit info option) 1700000000 [(5, 1)]]))) 5"
proof -
  let ?osm = "[(5 :: body, Some ''tingting''), (7, None)]"
  let ?bitgen = "\<lambda>seed i :: nat. real (seed + i)"
  let ?calls1 = "[Reset, Step ((), 0, False, None :: unit info option) 1700000000 [(5, 1)]]"
  let ?calls2 = "[Reset, Step (True, 3, True, Some (Map.empty :: unit info)) 1700000009 [(7, 1), (5, 5)]]"
  have i1: "init ?bitgen ?osm (1 / 4) NoBodies (BodySet {1}) False (PyFloat (- 1))
      = Inr (projr (init ?bitgen ?osm (1 / 4) NoBodies (BodySet {1}) False (PyFloat (- 1))))"
    by (simp add: init_def)
  have i2: "init ?bitgen ?osm 2 (BodySet {0}) NoBodies True (PyFloat (- 5))
      = Inr (projr (init ?bitgen ?osm 2 (BodySet {0}) NoBodies True (PyFloat (- 5))))"
    by (simp add: init_def)
  have shape: "map is_Reset ?calls1 = map is_Reset ?calls2" by simp
  have n: "(1 :: nat) = length (filter (\<lambda>x. snd x \<noteq> None) ?osm)" by simp
  have r: "(1 :: nat) = length (filter is_Reset ?calls1)" by simp
  have k: "(5, Some ''tingting'') \<in> set ?osm" by simp
  have inj: "inj_on (?bitgen 42) {128 * 1 * 1 ..< 128 * 1 * 1 + 256 * 1}"
    by (simp add: inj_on_def)
  from C8_generator_seeded_once [OF i1 i2 shape n r] k inj
  show ?thesis by simp
qed

end
